theory Spec2Isabelle
  imports Main "HOL-Library.Char_ord" "HOL-Library.Sublist"
begin

section \<open>Data model of \<^verbatim>\<open>main.py\<close>\<close>

text \<open>
  Python strings are modelled as \<^typ>\<open>string\<close>. Both regular expressions of the
  program consist of ASCII literals and an ASCII character class only, so on the UTF-8
  encoding of a URL they find the same match as on its code points.
\<close>

record TranscriptRequest =
  video_urls :: "string list"

record VideoTranscript =
  video_url :: string
  transcript :: string
  success :: bool
  error :: "string option"

text \<open>
  A chunk of the transcript provider: a dictionary with the keys \<^verbatim>\<open>text\<close>,
  \<^verbatim>\<open>start\<close> and \<^verbatim>\<open>duration\<close>, the first a string. The handler reads \<^verbatim>\<open>text\<close>
  only; the type of the two time stamps is left open.
\<close>

record 't chunk =
  "text" :: string
  start :: 't
  duration :: 't

text \<open>
  The exceptions a provider call raises, each with its string form \<^verbatim>\<open>str(e)\<close>: the three
  classes the handler imports, and every other instance of \<^verbatim>\<open>Exception\<close>. Interpreter
  signals outside \<^verbatim>\<open>Exception\<close> (\<^verbatim>\<open>KeyboardInterrupt\<close>, \<^verbatim>\<open>SystemExit\<close>) are not
  failures of the provider and are not modelled.
\<close>

datatype exn =
    TranscriptsDisabled string
  | NoTranscriptFound string
  | VideoUnavailable string
  | OtherException string

fun str :: "exn \<Rightarrow> string" where
  "str (TranscriptsDisabled m) = m"
| "str (NoTranscriptFound m) = m"
| "str (VideoUnavailable m) = m"
| "str (OtherException m) = m"

text \<open>The test of the first clause,
  \<^verbatim>\<open>except (TranscriptsDisabled, NoTranscriptFound, VideoUnavailable)\<close>.\<close>

fun known_failure :: "exn \<Rightarrow> bool" where
  "known_failure (TranscriptsDisabled m) = True"
| "known_failure (NoTranscriptFound m) = True"
| "known_failure (VideoUnavailable m) = True"
| "known_failure (OtherException m) = False"

text \<open>
  The provider \<^verbatim>\<open>YouTubeTranscriptApi.get_transcript\<close> is outside the repository: it
  is a parameter, a function from the identifier and the language list to the chunks or
  the exception raised. Every invocation is recorded in a log of calls, which the
  handler threads through.
\<close>

type_synonym call = "string \<times> string list"

type_synonym 't provider = "string \<Rightarrow> string list \<Rightarrow> exn + 't chunk list"

definition get_transcript ::
  "'t provider \<Rightarrow> string \<Rightarrow> string list \<Rightarrow> call list \<Rightarrow> (exn + 't chunk list) \<times> call list" where
  "get_transcript p video_id languages log = (p video_id languages, log @ [(video_id, languages)])"

section \<open>The identifier extractor\<close>

text \<open>The character class \<^verbatim>\<open>[a-zA-Z0-9_-]\<close>.\<close>

definition id_char :: "char \<Rightarrow> bool" where
  "id_char c \<longleftrightarrow>
     (CHR ''a'' \<le> c \<and> c \<le> CHR ''z'') \<or> (CHR ''A'' \<le> c \<and> c \<le> CHR ''Z'') \<or>
     (CHR ''0'' \<le> c \<and> c \<le> CHR ''9'') \<or> c = CHR ''_'' \<or> c = CHR ''-''"

text \<open>
  One attempt of the pattern \<^verbatim>\<open>lit([a-zA-Z0-9_-]{11})\<close> at the start of \<open>s\<close>: the
  literal, then exactly eleven characters of the class; the result is group 1.
\<close>

definition match_here :: "string \<Rightarrow> string \<Rightarrow> string option" where
  "match_here lit s =
     (if take (length lit) s = lit then
        (let tok = take 11 (drop (length lit) s)
         in if length tok = 11 \<and> list_all id_char tok then Some tok else None)
      else None)"

text \<open>\<^verbatim>\<open>re.search\<close>: the attempt is made at every position from left to right, and the
  first position where it succeeds gives the match.\<close>

fun re_search :: "string \<Rightarrow> string \<Rightarrow> string option" where
  "re_search lit [] = match_here lit []"
| "re_search lit (c # cs) =
     (case match_here lit (c # cs) of
        Some tok \<Rightarrow> Some tok
      | None \<Rightarrow> re_search lit cs)"

definition extract_video_id :: "string \<Rightarrow> string option" where
  "extract_video_id url =
     (case re_search ''youtu.be/'' url of
        Some short_match \<Rightarrow> Some short_match
      | None \<Rightarrow>
          (case re_search ''v='' url of
             Some long_match \<Rightarrow> Some long_match
           | None \<Rightarrow> None))"

section \<open>The handler of \<^verbatim>\<open>POST /transcripts\<close>\<close>

text \<open>\<^verbatim>\<open>sep.join(xs)\<close> on a list of strings.\<close>

fun join :: "string \<Rightarrow> string list \<Rightarrow> string" where
  "join sep [] = []"
| "join sep [x] = x"
| "join sep (x # y # ys) = x @ sep @ join sep (y # ys)"

text \<open>
  The body of the \<^verbatim>\<open>for\<close> loop for one URL: the record it appends and the log of
  provider calls after it. The test \<^verbatim>\<open>not video_id\<close> holds for \<^verbatim>\<open>None\<close> and for the
  empty string.
\<close>

definition process_url ::
  "'t provider \<Rightarrow> string \<Rightarrow> call list \<Rightarrow> VideoTranscript \<times> call list" where
  "process_url p url log =
     (let video_id = extract_video_id url in
      if video_id = None \<or> video_id = Some [] then
        (\<lparr>video_url = url, transcript = [], success = False,
          error = Some ''Could not extract video ID from URL.''\<rparr>, log)
      else
        (case get_transcript p (the video_id) [''en''] log of
           (Inr transcript_data, log') \<Rightarrow>
             (\<lparr>video_url = url, transcript = join '' '' (map text transcript_data),
               success = True, error = None\<rparr>, log')
         | (Inl e, log') \<Rightarrow>
             if known_failure e then
               (\<lparr>video_url = url, transcript = [], success = False,
                 error = Some (str e)\<rparr>, log')
             else
               (\<lparr>video_url = url, transcript = [], success = False,
                 error = Some (''Unexpected error: '' @ str e)\<rparr>, log')))"

text \<open>The loop: \<^verbatim>\<open>results\<close> starts empty and every URL appends one record.\<close>

definition loop_step ::
  "'t provider \<Rightarrow> VideoTranscript list \<times> call list \<Rightarrow> string \<Rightarrow> VideoTranscript list \<times> call list" where
  "loop_step p st url =
     (let (r, log') = process_url p url (snd st) in (fst st @ [r], log'))"

definition get_transcripts ::
  "'t provider \<Rightarrow> TranscriptRequest \<Rightarrow> call list \<Rightarrow> VideoTranscript list \<times> call list" where
  "get_transcripts p req log = foldl (loop_step p) ([], log) (video_urls req)"

section \<open>Vocabulary of the specification\<close>

text \<open>
  \<open>token_at lit url k tok\<close>: at offset \<open>k\<close> the string \<open>url\<close> reads the literal \<open>lit\<close>
  immediately followed by \<open>tok\<close>, an 11-character token over letters, digits, underscore
  and hyphen.
\<close>

definition token_at :: "string \<Rightarrow> string \<Rightarrow> nat \<Rightarrow> string \<Rightarrow> bool" where
  "token_at lit url k tok \<longleftrightarrow>
     length tok = 11 \<and> list_all id_char tok \<and> take (length lit + 11) (drop k url) = lit @ tok"

text \<open>
  The specification's wording of the transcript: the texts in their order, a single
  space in front of every text but the first.
\<close>

fun single_spaced :: "string list \<Rightarrow> string" where
  "single_spaced [] = []"
| "single_spaced (t # ts) = t @ concat (map (\<lambda>u. '' '' @ u) ts)"

section \<open>Properties of the extractor\<close>

lemma match_here_Some_iff:
  "match_here lit s = Some tok \<longleftrightarrow> token_at lit s 0 tok"
proof
  assume m: "match_here lit s = Some tok"
  then have pre: "take (length lit) s = lit"
    and tok: "tok = take 11 (drop (length lit) s)"
    and len: "length tok = 11" and cls: "list_all id_char tok"
    by (auto simp: match_here_def Let_def split: if_splits)
  have "take (length lit + 11) s = take (length lit) s @ take 11 (drop (length lit) s)"
    by (simp add: take_add)
  with pre tok len cls show "token_at lit s 0 tok"
    by (simp add: token_at_def)
next
  assume t: "token_at lit s 0 tok"
  then have len: "length tok = 11" and cls: "list_all id_char tok"
    and eq: "take (length lit + 11) s = lit @ tok"
    by (simp_all add: token_at_def)
  have split: "take (length lit + 11) s = take (length lit) s @ take 11 (drop (length lit) s)"
    by (simp add: take_add)
  have ll: "length (take (length lit) s) = length lit"
  proof -
    have "length (take (length lit + 11) s) = length lit + 11" using eq len by simp
    then have "length lit + 11 \<le> length s" by simp
    then show ?thesis by simp
  qed
  from eq split ll have "take (length lit) s = lit \<and> take 11 (drop (length lit) s) = tok"
    by (metis append_eq_append_conv)
  with len cls show "match_here lit s = Some tok"
    by (simp add: match_here_def Let_def)
qed

lemma match_here_None_iff:
  "match_here lit s = None \<longleftrightarrow> (\<forall>t. \<not> token_at lit s 0 t)"
  by (metis match_here_Some_iff not_Some_eq)

lemma token_at_drop: "token_at lit (drop j s) k tok = token_at lit s (j + k) tok"
  by (simp add: token_at_def add.commute)

lemma token_at_Cons: "token_at lit (c # cs) (Suc k) tok = token_at lit cs k tok"
  by (simp add: token_at_def)

lemma token_at_Nil: "\<not> token_at lit [] k tok"
  by (auto simp: token_at_def)

lemma token_at_decomp:
  "length tok = 11 \<Longrightarrow> list_all id_char tok \<Longrightarrow>
   token_at lit (pre @ lit @ tok @ post) (length pre) tok"
  by (simp add: token_at_def)

text \<open>In words: \<open>url\<close> splits into \<open>k\<close> characters, the literal, the token and a rest.\<close>

lemma token_at_iff_decomp:
  "token_at lit url k tok \<longleftrightarrow>
     length tok = 11 \<and> list_all id_char tok \<and>
     (\<exists>pre post. url = pre @ lit @ tok @ post \<and> length pre = k)"
proof
  assume t: "token_at lit url k tok"
  then have len: "length tok = 11" and cls: "list_all id_char tok"
    and eq: "take (length lit + 11) (drop k url) = lit @ tok"
    by (simp_all add: token_at_def)
  from eq len have "drop k url \<noteq> []" by auto
  then have k: "length (take k url) = k" by simp
  have "url = take k url @ take (length lit + 11) (drop k url) @ drop (length lit + 11) (drop k url)"
    by (simp only: append_take_drop_id)
  with eq have "url = take k url @ lit @ tok @ drop (length lit + 11) (drop k url)"
    by simp
  with k len cls show "length tok = 11 \<and> list_all id_char tok \<and>
     (\<exists>pre post. url = pre @ lit @ tok @ post \<and> length pre = k)"
    by blast
next
  assume "length tok = 11 \<and> list_all id_char tok \<and>
     (\<exists>pre post. url = pre @ lit @ tok @ post \<and> length pre = k)"
  then show "token_at lit url k tok"
    using token_at_decomp by blast
qed

text \<open>The search fails exactly when the string has no token after the literal anywhere.\<close>

lemma re_search_None_iff:
  "re_search lit s = None \<longleftrightarrow> (\<forall>k t. \<not> token_at lit s k t)"
proof (induction s)
  case Nil
  then show ?case by (simp add: match_here_None_iff token_at_Nil)
next
  case (Cons c cs)
  have "(\<forall>k t. \<not> token_at lit (c # cs) k t) \<longleftrightarrow>
        (\<forall>t. \<not> token_at lit (c # cs) 0 t) \<and> (\<forall>k t. \<not> token_at lit cs k t)"
    by (metis token_at_Cons not0_implies_Suc)
  with Cons show ?case
    by (simp add: match_here_None_iff split: option.splits) (metis match_here_None_iff not_Some_eq)
qed

text \<open>The search returns the token of the leftmost occurrence.\<close>

lemma re_search_leftmost:
  "token_at lit s k tok \<Longrightarrow> (\<forall>j<k. \<forall>t. \<not> token_at lit s j t) \<Longrightarrow> re_search lit s = Some tok"
proof (induction s arbitrary: k)
  case Nil
  then show ?case by (simp add: token_at_Nil)
next
  case (Cons c cs)
  show ?case
  proof (cases k)
    case 0
    with Cons.prems(1) have "match_here lit (c # cs) = Some tok"
      by (simp add: match_here_Some_iff)
    then show ?thesis by simp
  next
    case (Suc k')
    with Cons.prems(2) have none: "match_here lit (c # cs) = None"
      by (simp add: match_here_None_iff)
    from Suc Cons.prems(1) have t: "token_at lit cs k' tok"
      by (simp add: token_at_Cons)
    have "\<forall>j<k'. \<forall>t. \<not> token_at lit cs j t"
      using Cons.prems(2) Suc token_at_Cons by (metis Suc_less_eq)
    with t have "re_search lit cs = Some tok" by (rule Cons.IH)
    with none show ?thesis by simp
  qed
qed

lemma re_search_Some_D:
  "re_search lit s = Some tok \<Longrightarrow>
   \<exists>k. token_at lit s k tok \<and> (\<forall>j<k. \<forall>t. \<not> token_at lit s j t)"
proof (induction s)
  case Nil
  then show ?case by (simp add: match_here_Some_iff token_at_Nil)
next
  case (Cons c cs)
  show ?case
  proof (cases "match_here lit (c # cs)")
    case (Some t)
    with Cons.prems have "t = tok" by simp
    with Some have "token_at lit (c # cs) 0 tok" by (simp add: match_here_Some_iff)
    then show ?thesis by (intro exI[of _ 0]) simp
  next
    case None
    with Cons.prems have "re_search lit cs = Some tok" by simp
    then obtain k where k: "token_at lit cs k tok" "\<forall>j<k. \<forall>t. \<not> token_at lit cs j t"
      using Cons.IH by blast
    have "\<forall>j<Suc k. \<forall>t. \<not> token_at lit (c # cs) j t"
    proof (intro allI impI)
      fix j t assume "j < Suc k"
      show "\<not> token_at lit (c # cs) j t"
      proof (cases j)
        case 0
        with None show ?thesis by (simp add: match_here_None_iff)
      next
        case (Suc j')
        with \<open>j < Suc k\<close> k(2) show ?thesis by (simp add: token_at_Cons)
      qed
    qed
    with k(1) show ?thesis by (intro exI[of _ "Suc k"]) (simp add: token_at_Cons)
  qed
qed

text \<open>A check of "no token before offset \<open>k\<close>" that evaluates on a concrete string.\<close>

lemma token_free_prefix_code:
  "(\<forall>j<k. \<forall>t. \<not> token_at lit s j t) \<longleftrightarrow>
   (\<forall>j\<in>set [0..<k]. match_here lit (drop j s) = None)"
  by (auto simp: match_here_None_iff token_at_drop)

text \<open>An extracted identifier is never the empty string: it has eleven characters of
  the class.\<close>

lemma extract_video_id_token:
  "extract_video_id url = Some v \<Longrightarrow> length v = 11 \<and> list_all id_char v"
  by (auto simp: extract_video_id_def token_at_def split: option.splits dest!: re_search_Some_D)

section \<open>Properties of the handler\<close>

text \<open>The record of one URL does not depend on the calls made before it.\<close>

lemma process_url_result_log:
  "fst (process_url p url log) = fst (process_url p url log')"
  by (simp add: process_url_def get_transcript_def Let_def split: sum.splits)

lemma process_url_video_url: "video_url (fst (process_url p url log)) = url"
  by (simp add: process_url_def get_transcript_def Let_def split: sum.splits)

lemma foldl_loop_step:
  "fst (foldl (loop_step p) (rs, log) urls) = rs @ map (\<lambda>u. fst (process_url p u [])) urls"
proof (induction urls arbitrary: rs log)
  case Nil
  show ?case by simp
next
  case (Cons u us)
  obtain r log' where r: "process_url p u log = (r, log')" by (cases "process_url p u log")
  then have "r = fst (process_url p u [])"
    using process_url_result_log [of p u log "[]"] by simp
  with r Cons.IH [of "rs @ [r]" log'] show ?case
    by (simp add: loop_step_def)
qed

lemma get_transcripts_map:
  "fst (get_transcripts p req log) = map (\<lambda>u. fst (process_url p u [])) (video_urls req)"
  by (simp add: get_transcripts_def foldl_loop_step)

text \<open>
  Claim C1. The list the handler returns has the length of \<^verbatim>\<open>video_urls\<close>; its
  records echo the input URLs position by position, each record being the one the loop
  body computes for the URL at that position; the empty list of URLs gives the empty
  list of records (and no provider call).
\<close>

theorem get_transcripts_length_order:
  "length (fst (get_transcripts p req log)) = length (video_urls req) \<and>
   map video_url (fst (get_transcripts p req log)) = video_urls req \<and>
   fst (get_transcripts p req log) = map (\<lambda>url. fst (process_url p url [])) (video_urls req) \<and>
   get_transcripts p \<lparr>video_urls = []\<rparr> log = ([], log)"
proof -
  have m: "fst (get_transcripts p req log) =
      map (\<lambda>url. fst (process_url p url [])) (video_urls req)"
    by (rule get_transcripts_map)
  have "map video_url (map (\<lambda>url. fst (process_url p url [])) (video_urls req)) = video_urls req"
    by (simp add: process_url_video_url o_def)
  with m show ?thesis by (simp add: get_transcripts_def)
qed

text \<open>Python's \<^verbatim>\<open>" ".join\<close> agrees with the specification's wording.\<close>

lemma join_Cons: "join sep (t # ts) = t @ concat (map (\<lambda>u. sep @ u) ts)"
  by (induction ts arbitrary: t) simp_all

lemma join_single_spaced: "join '' '' ts = single_spaced ts"
  by (cases ts) (simp_all only: join_Cons single_spaced.simps join.simps)

text \<open>The provider is called for the URLs that have an identifier, and only for them.\<close>

lemma process_url_calls:
  "snd (process_url p url log) =
     (case extract_video_id url of None \<Rightarrow> log | Some v \<Rightarrow> log @ [(v, [''en''])])"
proof (cases "extract_video_id url")
  case None
  then show ?thesis by (simp add: process_url_def)
next
  case (Some v)
  then have "v \<noteq> []" using extract_video_id_token [of url v] by auto
  with Some show ?thesis
    by (simp add: process_url_def get_transcript_def split: sum.splits)
qed

lemma foldl_loop_step_calls:
  "snd (foldl (loop_step p) (rs, log) urls) =
     log @ map (\<lambda>v. (v, [''en''])) (List.map_filter extract_video_id urls)"
proof (induction urls arbitrary: rs log)
  case Nil
  show ?case by (simp add: List.map_filter_simps)
next
  case (Cons u us)
  obtain r log' where r: "process_url p u log = (r, log')" by (cases "process_url p u log")
  then have "log' = (case extract_video_id u of None \<Rightarrow> log | Some v \<Rightarrow> log @ [(v, [''en''])])"
    using process_url_calls [of p u log] by simp
  with r Cons.IH [of "rs @ [r]" log'] show ?case
    by (simp add: loop_step_def List.map_filter_simps split: option.splits)
qed

lemma get_transcripts_calls:
  "snd (get_transcripts p req log) =
     log @ map (\<lambda>v. (v, [''en''])) (List.map_filter extract_video_id (video_urls req))"
  by (simp add: get_transcripts_def foldl_loop_step_calls)

lemma get_transcripts_nth:
  "i < length (video_urls req) \<Longrightarrow>
   fst (get_transcripts p req log) ! i = fst (process_url p (video_urls req ! i) log')"
  using process_url_result_log [of p "video_urls req ! i" "[]" log']
  by (simp add: get_transcripts_map)

lemma process_url_cong:
  "(\<And>v. extract_video_id url = Some v \<Longrightarrow> p' v [''en''] = p v [''en'']) \<Longrightarrow>
   fst (process_url p' url log) = fst (process_url p url log)"
  by (cases "extract_video_id url") (simp_all add: process_url_def get_transcript_def)

text \<open>
  Claim C2. When \<^verbatim>\<open>extract_video_id\<close> yields no identifier, the record of the URL is
  exactly the URL, the empty transcript, \<^verbatim>\<open>success = False\<close> and the error
  \<^verbatim>\<open>"Could not extract video ID from URL."\<close>, for every provider; the log of provider
  calls is the one before the URL, so the provider is not invoked. Over a whole request
  the handler calls the provider once for each URL that has an identifier, in order, and
  for no other URL.
\<close>

theorem extraction_failure_record:
  "extract_video_id url = None \<Longrightarrow>
   process_url p url log =
     (\<lparr>video_url = url, transcript = [], success = False,
       error = Some ''Could not extract video ID from URL.''\<rparr>, log) \<and>
   snd (get_transcripts p req log) =
     log @ map (\<lambda>v. (v, [''en''])) (List.map_filter extract_video_id (video_urls req))"
  by (simp add: process_url_def get_transcripts_calls)

theorem extraction_failure_record_witness:
  "extract_video_id ''https://example.com/video'' = None \<and>
   process_url (\<lambda>v l. Inr [\<lparr>text = ''never read'', start = 0::nat, duration = 0\<rparr>])
       ''https://example.com/video'' [(''dQw4w9WgXcQ'', [''en''])] =
     (\<lparr>video_url = ''https://example.com/video'', transcript = [], success = False,
       error = Some ''Could not extract video ID from URL.''\<rparr>, [(''dQw4w9WgXcQ'', [''en''])])"
proof -
  have h: "extract_video_id ''https://example.com/video'' = None" by code_simp
  from h extraction_failure_record [OF h, THEN conjunct1] show ?thesis by (rule conjI)
qed

text \<open>
  Claim C3. When extraction succeeds and the provider call returns chunks, the record
  has the texts of the chunks in their order with a single space between consecutive
  texts as its transcript, \<^verbatim>\<open>success = True\<close> and no error; the provider was called
  once, with the identifier and the language list \<^verbatim>\<open>["en"]\<close>.
\<close>

theorem success_record:
  "extract_video_id url = Some video_id \<Longrightarrow> p video_id [''en''] = Inr chunks \<Longrightarrow>
   process_url p url log =
     (\<lparr>video_url = url, transcript = single_spaced (map text chunks), success = True,
       error = None\<rparr>, log @ [(video_id, [''en''])])"
  by (frule extract_video_id_token)
     (auto simp: process_url_def get_transcript_def join_single_spaced)

theorem success_record_witness:
  "extract_video_id ''https://www.youtube.com/watch?v=dQw4w9WgXcQ'' = Some ''dQw4w9WgXcQ'' \<and>
   process_url
       (\<lambda>v l. Inr [\<lparr>text = ''Hello'', start = 0::nat, duration = 2\<rparr>,
                    \<lparr>text = ''world'', start = 2, duration = 3\<rparr>])
       ''https://www.youtube.com/watch?v=dQw4w9WgXcQ'' [] =
     (\<lparr>video_url = ''https://www.youtube.com/watch?v=dQw4w9WgXcQ'', transcript = ''Hello world'',
       success = True, error = None\<rparr>, [(''dQw4w9WgXcQ'', [''en''])])"
proof -
  have h: "extract_video_id ''https://www.youtube.com/watch?v=dQw4w9WgXcQ'' = Some ''dQw4w9WgXcQ''"
    by code_simp
  from h success_record [OF h, of "\<lambda>v l. Inr [\<lparr>text = ''Hello'', start = 0::nat, duration = 2\<rparr>,
                    \<lparr>text = ''world'', start = 2, duration = 3\<rparr>]" _ "[]"]
  show ?thesis by simp
qed

text \<open>
  Claim C4. When extraction succeeds and the provider call raises one of the three known
  exceptions, the record has \<^verbatim>\<open>success = False\<close>, the string form of the exception as
  its error and the empty transcript.
\<close>

theorem known_failure_record:
  "extract_video_id url = Some video_id \<Longrightarrow> p video_id [''en''] = Inl e \<Longrightarrow> known_failure e \<Longrightarrow>
   fst (process_url p url log) =
     \<lparr>video_url = url, transcript = [], success = False, error = Some (str e)\<rparr>"
  by (frule extract_video_id_token)
     (auto simp: process_url_def get_transcript_def)

theorem known_failure_record_witness:
  "extract_video_id ''https://youtu.be/dQw4w9WgXcQ'' = Some ''dQw4w9WgXcQ'' \<and>
   known_failure (TranscriptsDisabled ''Subtitles are disabled for this video'') \<and>
   fst (process_url (\<lambda>v l. Inl (TranscriptsDisabled ''Subtitles are disabled for this video'')
                     :: exn + nat chunk list)
       ''https://youtu.be/dQw4w9WgXcQ'' []) =
     \<lparr>video_url = ''https://youtu.be/dQw4w9WgXcQ'', transcript = [], success = False,
      error = Some ''Subtitles are disabled for this video''\<rparr>"
proof -
  have h: "extract_video_id ''https://youtu.be/dQw4w9WgXcQ'' = Some ''dQw4w9WgXcQ''"
    by code_simp
  from h known_failure_record [OF h, of "\<lambda>v l. Inl (TranscriptsDisabled ''Subtitles are disabled for this video'')" _ "[]"]
  show ?thesis by simp
qed

text \<open>The record of a URL whose provider call raises an exception outside the three
  known classes.\<close>

lemma unexpected_item:
  "extract_video_id url = Some video_id \<Longrightarrow> p video_id [''en''] = Inl e \<Longrightarrow> \<not> known_failure e \<Longrightarrow>
   fst (process_url p url log) =
     \<lparr>video_url = url, transcript = [], success = False,
      error = Some (''Unexpected error: '' @ str e)\<rparr>"
  by (frule extract_video_id_token)
     (auto simp: process_url_def get_transcript_def)

text \<open>
  Claim C5. When extraction succeeds for the URL at position \<open>i\<close> and the provider call
  raises an exception outside the three known classes, the record at position \<open>i\<close> has
  \<^verbatim>\<open>success = False\<close>, the empty transcript and the error \<^verbatim>\<open>"Unexpected error: "\<close>
  followed by the string form of the exception. The handler still returns a list of
  the length of the input: the exception is a field of one record, not the outcome
  of the handler. Every other position holds the record its own URL gives, and
  replacing the provider's answer for this identifier by any other leaves the records of
  the URLs with another identifier (or none) as they are.
\<close>

theorem unexpected_failure_record:
  assumes i: "i < length (video_urls req)"
    and id: "extract_video_id (video_urls req ! i) = Some video_id"
    and raised: "p video_id [''en''] = Inl e"
    and other: "\<not> known_failure e"
  shows "fst (process_url p (video_urls req ! i) log') =
           \<lparr>video_url = video_urls req ! i, transcript = [], success = False,
            error = Some (''Unexpected error: '' @ str e)\<rparr> \<and>
         suffix (str e) (''Unexpected error: '' @ str e) \<and>
         length (fst (get_transcripts p req log)) = length (video_urls req) \<and>
         fst (get_transcripts p req log) ! i =
           \<lparr>video_url = video_urls req ! i, transcript = [], success = False,
            error = Some (''Unexpected error: '' @ str e)\<rparr> \<and>
         (\<forall>j<length (video_urls req). j \<noteq> i \<longrightarrow>
            fst (get_transcripts p req log) ! j = fst (process_url p (video_urls req ! j) [])) \<and>
         (\<forall>p'. (\<forall>v l. v \<noteq> video_id \<longrightarrow> p' v l = p v l) \<longrightarrow>
            (\<forall>j<length (video_urls req). extract_video_id (video_urls req ! j) \<noteq> Some video_id \<longrightarrow>
               fst (get_transcripts p' req log) ! j = fst (get_transcripts p req log) ! j))"
proof -
  have item: "fst (process_url p (video_urls req ! i) lg) =
           \<lparr>video_url = video_urls req ! i, transcript = [], success = False,
            error = Some (''Unexpected error: '' @ str e)\<rparr>" for lg
    using id raised other by (rule unexpected_item)
  have suf: "suffix (str e) (''Unexpected error: '' @ str e)"
    by (rule suffixI) (rule refl)
  have len: "length (fst (get_transcripts p req log)) = length (video_urls req)"
    by (simp add: get_transcripts_map)
  have at_i: "fst (get_transcripts p req log) ! i =
           \<lparr>video_url = video_urls req ! i, transcript = [], success = False,
            error = Some (''Unexpected error: '' @ str e)\<rparr>"
    using get_transcripts_nth [OF i, of p log "[]"] item [of "[]"] by (rule trans)
  have sib: "\<forall>j<length (video_urls req). j \<noteq> i \<longrightarrow>
            fst (get_transcripts p req log) ! j = fst (process_url p (video_urls req ! j) [])"
    using get_transcripts_nth [of _ req p log "[]"] by blast
  have other_p: "\<forall>p'. (\<forall>v l. v \<noteq> video_id \<longrightarrow> p' v l = p v l) \<longrightarrow>
            (\<forall>j<length (video_urls req). extract_video_id (video_urls req ! j) \<noteq> Some video_id \<longrightarrow>
               fst (get_transcripts p' req log) ! j = fst (get_transcripts p req log) ! j)"
  proof (intro allI impI)
    fix p' :: "'a provider" and j
    assume agree: "\<forall>v l. v \<noteq> video_id \<longrightarrow> p' v l = p v l"
      and j: "j < length (video_urls req)"
      and ne: "extract_video_id (video_urls req ! j) \<noteq> Some video_id"
    have "p' v [''en''] = p v [''en'']" if "extract_video_id (video_urls req ! j) = Some v" for v
    proof -
      from that ne have "v \<noteq> video_id" by blast
      with agree show ?thesis by blast
    qed
    then have "fst (process_url p' (video_urls req ! j) []) = fst (process_url p (video_urls req ! j) [])"
      by (rule process_url_cong)
    then show "fst (get_transcripts p' req log) ! j = fst (get_transcripts p req log) ! j"
      using get_transcripts_nth [OF j, of p' log "[]"] get_transcripts_nth [OF j, of p log "[]"]
      by presburger
  qed
  show ?thesis
    using item [of log'] suf len at_i sib other_p by (intro conjI)
qed

theorem unexpected_failure_record_witness:
  "extract_video_id ''https://youtu.be/dQw4w9WgXcQ'' = Some ''dQw4w9WgXcQ'' \<and>
   \<not> known_failure (OtherException ''timed out'') \<and>
   fst (get_transcripts
         (\<lambda>v l. if v = ''dQw4w9WgXcQ'' then Inl (OtherException ''timed out'')
                 else Inr [\<lparr>text = ''Hello'', start = 0::nat, duration = 2\<rparr>])
         \<lparr>video_urls = [''https://youtu.be/dQw4w9WgXcQ'',
                        ''https://www.youtube.com/watch?v=AAAAAAAAAAA'']\<rparr> []) ! 0 =
     \<lparr>video_url = ''https://youtu.be/dQw4w9WgXcQ'', transcript = [], success = False,
      error = Some ''Unexpected error: timed out''\<rparr> \<and>
   fst (get_transcripts
         (\<lambda>v l. if v = ''dQw4w9WgXcQ'' then Inl (OtherException ''timed out'')
                 else Inr [\<lparr>text = ''Hello'', start = 0::nat, duration = 2\<rparr>])
         \<lparr>video_urls = [''https://youtu.be/dQw4w9WgXcQ'',
                        ''https://www.youtube.com/watch?v=AAAAAAAAAAA'']\<rparr> []) ! 1 =
     \<lparr>video_url = ''https://www.youtube.com/watch?v=AAAAAAAAAAA'', transcript = ''Hello'',
      success = True, error = None\<rparr>"
proof -
  let ?p = "\<lambda>(v::string) (l::string list).
      if v = ''dQw4w9WgXcQ'' then Inl (OtherException ''timed out'')
      else Inr [\<lparr>text = ''Hello'', start = 0::nat, duration = 2\<rparr>]"
  let ?req = "\<lparr>video_urls = [''https://youtu.be/dQw4w9WgXcQ'',
                        ''https://www.youtube.com/watch?v=AAAAAAAAAAA'']\<rparr>"
  have x: "extract_video_id ''https://youtu.be/dQw4w9WgXcQ'' = Some ''dQw4w9WgXcQ''"
    by code_simp
  have h1: "0 < length (video_urls ?req)" by simp
  have h2: "extract_video_id (video_urls ?req ! 0) = Some ''dQw4w9WgXcQ''"
    using x by simp
  have h3: "?p ''dQw4w9WgXcQ'' [''en''] = Inl (OtherException ''timed out'')" by simp
  have h4: "\<not> known_failure (OtherException ''timed out'')" by simp
  note t = unexpected_failure_record [of 0 ?req "''dQw4w9WgXcQ''" ?p, OF h1 h2 h3 h4, of "[]" "[]"]
  from t have a: "fst (get_transcripts ?p ?req []) ! 0 =
      \<lparr>video_url = video_urls ?req ! 0, transcript = [], success = False,
       error = Some (''Unexpected error: '' @ str (OtherException ''timed out''))\<rparr>"
    by (elim conjE)
  from t have sib: "\<forall>j<length (video_urls ?req). j \<noteq> 0 \<longrightarrow>
      fst (get_transcripts ?p ?req []) ! j = fst (process_url ?p (video_urls ?req ! j) [])"
    by (elim conjE)
  have b: "fst (get_transcripts ?p ?req []) ! 1 = fst (process_url ?p (video_urls ?req ! 1) [])"
    using sib by simp
  have y: "extract_video_id ''https://www.youtube.com/watch?v=AAAAAAAAAAA'' = Some ''AAAAAAAAAAA''"
    by code_simp
  have c: "fst (process_url ?p (video_urls ?req ! 1) []) =
      \<lparr>video_url = ''https://www.youtube.com/watch?v=AAAAAAAAAAA'', transcript = ''Hello'',
       success = True, error = None\<rparr>"
    using y by (simp add: process_url_def get_transcript_def)
  from a have a': "fst (get_transcripts ?p ?req []) ! 0 =
     \<lparr>video_url = ''https://youtu.be/dQw4w9WgXcQ'', transcript = [], success = False,
      error = Some ''Unexpected error: timed out''\<rparr>" by simp
  from b c have b': "fst (get_transcripts ?p ?req []) ! 1 =
      \<lparr>video_url = ''https://www.youtube.com/watch?v=AAAAAAAAAAA'', transcript = ''Hello'',
       success = True, error = None\<rparr>" by (rule trans)
  from x h4 a' b' show ?thesis by (intro conjI)
qed

text \<open>The four records the loop body builds: an error message exactly when
  \<^verbatim>\<open>success\<close> is false.\<close>

lemma error_iff_failure_record:
  "r = fst (process_url p url log) \<Longrightarrow>
   ((error r \<noteq> None) = (\<not> success r)) \<and> (success r \<longrightarrow> error r = None) \<and>
   (\<not> success r \<longrightarrow> (\<exists>msg. error r = Some msg))"
  by (simp add: process_url_def get_transcript_def Let_def split: sum.splits)

text \<open>
  Claim C8. In every record of the list the handler returns, the error is present
  (not \<^verbatim>\<open>None\<close>) if and only if \<^verbatim>\<open>success\<close> is false: a record with
  \<^verbatim>\<open>success = True\<close> has no error, a record with \<^verbatim>\<open>success = False\<close> has an error
  string.
\<close>

theorem error_iff_not_success:
  "(error (fst (process_url p url log)) \<noteq> None) = (\<not> success (fst (process_url p url log))) \<and>
   (\<forall>r\<in>set (fst (get_transcripts p req log)).
      ((error r \<noteq> None) = (\<not> success r)) \<and> (success r \<longrightarrow> error r = None) \<and>
      (\<not> success r \<longrightarrow> (\<exists>msg. error r = Some msg)))"
proof (rule conjI)
  show "(error (fst (process_url p url log)) \<noteq> None) = (\<not> success (fst (process_url p url log)))"
    using error_iff_failure_record [OF refl, of p url log] by blast
next
  show "\<forall>r\<in>set (fst (get_transcripts p req log)).
      ((error r \<noteq> None) = (\<not> success r)) \<and> (success r \<longrightarrow> error r = None) \<and>
      (\<not> success r \<longrightarrow> (\<exists>msg. error r = Some msg))"
  proof (rule ballI)
    fix r assume "r \<in> set (fst (get_transcripts p req log))"
    then obtain u where "r = fst (process_url p u [])"
      by (auto simp: get_transcripts_map)
    then show "((error r \<noteq> None) = (\<not> success r)) \<and> (success r \<longrightarrow> error r = None) \<and>
        (\<not> success r \<longrightarrow> (\<exists>msg. error r = Some msg))"
      by (rule error_iff_failure_record)
  qed
qed

theorem error_iff_not_success_witness:
  "fst (get_transcripts
         (\<lambda>v l. if v = ''dQw4w9WgXcQ'' then Inl (VideoUnavailable ''The video is no longer available'')
                 else Inr [\<lparr>text = ''Hello'', start = 0::nat, duration = 2\<rparr>])
         \<lparr>video_urls = [''https://youtu.be/dQw4w9WgXcQ'', ''https://youtu.be/AAAAAAAAAAA'']\<rparr> []) =
     [\<lparr>video_url = ''https://youtu.be/dQw4w9WgXcQ'', transcript = [], success = False,
       error = Some ''The video is no longer available''\<rparr>,
      \<lparr>video_url = ''https://youtu.be/AAAAAAAAAAA'', transcript = ''Hello'', success = True,
       error = None\<rparr>] \<and>
   (error \<lparr>video_url = ''https://youtu.be/dQw4w9WgXcQ'', transcript = [], success = False,
       error = Some ''The video is no longer available''\<rparr> \<noteq> None) =
   (\<not> success \<lparr>video_url = ''https://youtu.be/dQw4w9WgXcQ'', transcript = [], success = False,
       error = Some ''The video is no longer available''\<rparr>) \<and>
   (error \<lparr>video_url = ''https://youtu.be/AAAAAAAAAAA'', transcript = ''Hello'', success = True,
       error = None\<rparr> \<noteq> None) =
   (\<not> success \<lparr>video_url = ''https://youtu.be/AAAAAAAAAAA'', transcript = ''Hello'', success = True,
       error = None\<rparr>)"
proof -
  let ?p = "\<lambda>(v::string) (l::string list).
      if v = ''dQw4w9WgXcQ'' then Inl (VideoUnavailable ''The video is no longer available'')
      else Inr [\<lparr>text = ''Hello'', start = 0::nat, duration = 2\<rparr>]"
  let ?req = "\<lparr>video_urls = [''https://youtu.be/dQw4w9WgXcQ'', ''https://youtu.be/AAAAAAAAAAA'']\<rparr>"
  let ?r0 = "\<lparr>video_url = ''https://youtu.be/dQw4w9WgXcQ'', transcript = [], success = False,
       error = Some ''The video is no longer available''\<rparr>"
  let ?r1 = "\<lparr>video_url = ''https://youtu.be/AAAAAAAAAAA'', transcript = ''Hello'', success = True,
       error = None\<rparr>"
  have x: "extract_video_id ''https://youtu.be/dQw4w9WgXcQ'' = Some ''dQw4w9WgXcQ''"
    by code_simp
  have y: "extract_video_id ''https://youtu.be/AAAAAAAAAAA'' = Some ''AAAAAAAAAAA''"
    by code_simp
  have rs: "fst (get_transcripts ?p ?req []) = [?r0, ?r1]"
    using x y by (simp add: get_transcripts_map process_url_def get_transcript_def)
  note t = error_iff_not_success [where p = ?p and req = ?req and log = "[]", THEN conjunct2, unfolded rs]
  have m0: "?r0 \<in> set [?r0, ?r1]" and m1: "?r1 \<in> set [?r0, ?r1]" by simp_all
  from t m0 have a: "(error ?r0 \<noteq> None) = (\<not> success ?r0)" by blast
  from t m1 have b: "(error ?r1 \<noteq> None) = (\<not> success ?r1)" by blast
  from rs a b show ?thesis by (intro conjI)
qed

text \<open>
  Claim C9. For a fixed provider the records of a request do not depend on the calls made
  before it: a second run of the handler on the same request, after the first, returns
  the same list of records.
\<close>

theorem get_transcripts_deterministic:
  "fst (get_transcripts p req (snd (get_transcripts p req log))) = fst (get_transcripts p req log) \<and>
   fst (get_transcripts p req log') = fst (get_transcripts p req log)"
  by (simp add: get_transcripts_map)

section \<open>Which token the extractor returns\<close>

text \<open>
  Claim C6, as amended. When the URL reads \<^verbatim>\<open>youtu.be/\<close> immediately followed by an
  11-character token, and no such occurrence starts further left, the extractor returns
  that token, whatever \<^verbatim>\<open>v=\<close> occurrences the URL has.
\<close>

theorem extract_short_link_leftmost:
  assumes url: "url = pre @ ''youtu.be/'' @ tok @ post"
    and len: "length tok = 11" and cls: "list_all id_char tok"
    and first: "\<forall>j<length pre. \<forall>t. \<not> token_at ''youtu.be/'' url j t"
  shows "extract_video_id url = Some tok"
proof -
  from len cls have "token_at ''youtu.be/'' url (length pre) tok"
    unfolding url by (rule token_at_decomp)
  with first have "re_search ''youtu.be/'' url = Some tok"
    by (intro re_search_leftmost)
  then show ?thesis by (simp add: extract_video_id_def)
qed

theorem extract_short_link_leftmost_witness:
  "''https://youtu.be/dQw4w9WgXcQ?v=AAAAAAAAAAA'' =
      ''https://'' @ ''youtu.be/'' @ ''dQw4w9WgXcQ'' @ ''?v=AAAAAAAAAAA'' \<and>
   length ''dQw4w9WgXcQ'' = 11 \<and> list_all id_char ''dQw4w9WgXcQ'' \<and>
   token_at ''v='' ''https://youtu.be/dQw4w9WgXcQ?v=AAAAAAAAAAA'' 29 ''AAAAAAAAAAA'' \<and>
   extract_video_id ''https://youtu.be/dQw4w9WgXcQ?v=AAAAAAAAAAA'' = Some ''dQw4w9WgXcQ''"
proof -
  have u: "''https://youtu.be/dQw4w9WgXcQ?v=AAAAAAAAAAA'' =
      ''https://'' @ ''youtu.be/'' @ ''dQw4w9WgXcQ'' @ ''?v=AAAAAAAAAAA''" by simp
  have l: "length ''dQw4w9WgXcQ'' = 11" by simp
  have c: "list_all id_char ''dQw4w9WgXcQ''" by code_simp
  have f: "\<forall>j<length ''https://''. \<forall>t.
      \<not> token_at ''youtu.be/'' ''https://youtu.be/dQw4w9WgXcQ?v=AAAAAAAAAAA'' j t"
    unfolding token_free_prefix_code by code_simp
  have v: "token_at ''v='' ''https://youtu.be/dQw4w9WgXcQ?v=AAAAAAAAAAA'' 29 ''AAAAAAAAAAA''"
    by code_simp
  from u l c v extract_short_link_leftmost [OF u l c f] show ?thesis by (intro conjI)
qed

text \<open>
  The claim as stated, for any occurrence, fails: of two short-link occurrences the
  extractor returns the token of the left one, not that of the right one.
\<close>

theorem extract_short_link_counterexample:
  "''https://youtu.be/AAAAAAAAAAA?next=youtu.be/BBBBBBBBBBB'' =
      ''https://youtu.be/AAAAAAAAAAA?next='' @ ''youtu.be/'' @ ''BBBBBBBBBBB'' @ [] \<and>
   length ''BBBBBBBBBBB'' = 11 \<and> list_all id_char ''BBBBBBBBBBB'' \<and>
   extract_video_id ''https://youtu.be/AAAAAAAAAAA?next=youtu.be/BBBBBBBBBBB'' = Some ''AAAAAAAAAAA'' \<and>
   extract_video_id ''https://youtu.be/AAAAAAAAAAA?next=youtu.be/BBBBBBBBBBB'' \<noteq> Some ''BBBBBBBBBBB''"
  by code_simp

text \<open>
  Claim C7, as amended. When the URL reads \<^verbatim>\<open>v=\<close> immediately followed by an
  11-character token, no such occurrence starts further left, and the URL has no
  \<^verbatim>\<open>youtu.be/\<close> occurrence followed by a token, the extractor returns that token. When
  the URL has no occurrence of either kind, the extractor returns \<^verbatim>\<open>None\<close>.
\<close>

theorem extract_watch_link_leftmost:
  "(url = pre @ ''v='' @ tok @ post \<and> length tok = 11 \<and> list_all id_char tok \<and>
    (\<forall>j<length pre. \<forall>t. \<not> token_at ''v='' url j t) \<and>
    (\<forall>j t. \<not> token_at ''youtu.be/'' url j t)
      \<longrightarrow> extract_video_id url = Some tok) \<and>
   ((\<forall>j t. \<not> token_at ''youtu.be/'' url j t) \<and> (\<forall>j t. \<not> token_at ''v='' url j t)
      \<longrightarrow> extract_video_id url = None)"
proof (intro conjI impI)
  assume h: "url = pre @ ''v='' @ tok @ post \<and> length tok = 11 \<and> list_all id_char tok \<and>
    (\<forall>j<length pre. \<forall>t. \<not> token_at ''v='' url j t) \<and>
    (\<forall>j t. \<not> token_at ''youtu.be/'' url j t)"
  then have url: "url = pre @ ''v='' @ tok @ post" and len: "length tok = 11"
    and cls: "list_all id_char tok"
    and first: "\<forall>j<length pre. \<forall>t. \<not> token_at ''v='' url j t"
    and no_short: "\<forall>j t. \<not> token_at ''youtu.be/'' url j t"
    by blast+
  from no_short have short: "re_search ''youtu.be/'' url = None"
    using re_search_None_iff [of "''youtu.be/''" url] by blast
  from len cls have "token_at ''v='' url (length pre) tok"
    unfolding url by (rule token_at_decomp)
  with first have "re_search ''v='' url = Some tok"
    by (intro re_search_leftmost)
  with short show "extract_video_id url = Some tok"
    by (simp add: extract_video_id_def)
next
  assume "(\<forall>j t. \<not> token_at ''youtu.be/'' url j t) \<and> (\<forall>j t. \<not> token_at ''v='' url j t)"
  then have "re_search ''youtu.be/'' url = None" and "re_search ''v='' url = None"
    using re_search_None_iff [of "''youtu.be/''" url] re_search_None_iff [of "''v=''" url]
    by blast+
  then show "extract_video_id url = None"
    by (simp add: extract_video_id_def)
qed

theorem extract_watch_link_leftmost_witness:
  "''https://www.youtube.com/watch?v=dQw4w9WgXcQ'' =
      ''https://www.youtube.com/watch?'' @ ''v='' @ ''dQw4w9WgXcQ'' @ [] \<and>
   re_search ''youtu.be/'' ''https://www.youtube.com/watch?v=dQw4w9WgXcQ'' = None \<and>
   extract_video_id ''https://www.youtube.com/watch?v=dQw4w9WgXcQ'' = Some ''dQw4w9WgXcQ'' \<and>
   re_search ''youtu.be/'' ''https://example.com/video'' = None \<and>
   re_search ''v='' ''https://example.com/video'' = None \<and>
   extract_video_id ''https://example.com/video'' = None"
proof -
  let ?u = "''https://www.youtube.com/watch?v=dQw4w9WgXcQ''"
  let ?w = "''https://example.com/video''"
  have u: "?u = ''https://www.youtube.com/watch?'' @ ''v='' @ ''dQw4w9WgXcQ'' @ []" by simp
  have l: "length ''dQw4w9WgXcQ'' = 11" by simp
  have c: "list_all id_char ''dQw4w9WgXcQ''" by code_simp
  have f: "\<forall>j<length ''https://www.youtube.com/watch?''. \<forall>t. \<not> token_at ''v='' ?u j t"
    unfolding token_free_prefix_code by code_simp
  have s: "re_search ''youtu.be/'' ?u = None" by code_simp
  then have n: "\<forall>j t. \<not> token_at ''youtu.be/'' ?u j t"
    by (rule re_search_None_iff [THEN iffD1])
  have a: "extract_video_id ?u = Some ''dQw4w9WgXcQ''"
    using extract_watch_link_leftmost
      [where url = ?u and pre = "''https://www.youtube.com/watch?''" and tok = "''dQw4w9WgXcQ''"
         and post = "[]", THEN conjunct1] u l c f n
    by blast
  have ws: "re_search ''youtu.be/'' ?w = None" and wl: "re_search ''v='' ?w = None"
    by code_simp+
  from ws have ns: "\<forall>j t. \<not> token_at ''youtu.be/'' ?w j t"
    by (rule re_search_None_iff [THEN iffD1])
  from wl have nl: "\<forall>j t. \<not> token_at ''v='' ?w j t"
    by (rule re_search_None_iff [THEN iffD1])
  from ns nl have b: "extract_video_id ?w = None"
    using extract_watch_link_leftmost [where url = ?w, THEN conjunct2] by blast
  from u s a ws wl b show ?thesis by (intro conjI)
qed

text \<open>
  The claim as stated, for any occurrence, fails: of two \<^verbatim>\<open>v=\<close> occurrences the
  extractor returns the token of the left one.
\<close>

theorem extract_watch_link_counterexample:
  "''https://www.youtube.com/watch?v=AAAAAAAAAAA&v=BBBBBBBBBBB'' =
      ''https://www.youtube.com/watch?v=AAAAAAAAAAA&'' @ ''v='' @ ''BBBBBBBBBBB'' @ [] \<and>
   length ''BBBBBBBBBBB'' = 11 \<and> list_all id_char ''BBBBBBBBBBB'' \<and>
   re_search ''youtu.be/'' ''https://www.youtube.com/watch?v=AAAAAAAAAAA&v=BBBBBBBBBBB'' = None \<and>
   extract_video_id ''https://www.youtube.com/watch?v=AAAAAAAAAAA&v=BBBBBBBBBBB'' = Some ''AAAAAAAAAAA'' \<and>
   extract_video_id ''https://www.youtube.com/watch?v=AAAAAAAAAAA&v=BBBBBBBBBBB'' \<noteq> Some ''BBBBBBBBBBB''"
  by code_simp

text \<open>
  Claim C10, as amended. The patterns have no right-hand boundary: when the URL reads
  \<^verbatim>\<open>youtu.be/\<close> immediately followed by 12 or more characters of the class, and no
  \<^verbatim>\<open>youtu.be/\<close> followed by 11 characters of the class starts further left, the
  extractor returns the first 11 of the characters that follow that \<^verbatim>\<open>youtu.be/\<close>
  and does not report a failure. The same holds for \<^verbatim>\<open>v=\<close> in a URL that nowhere
  reads \<^verbatim>\<open>youtu.be/\<close> followed by 11 characters of the class.
\<close>

theorem extract_no_right_boundary:
  assumes url: "url = pre @ lit @ run @ post"
    and len: "12 \<le> length run" and cls: "list_all id_char run"
    and first: "\<forall>j<length pre. \<forall>t. \<not> token_at lit url j t"
    and lit: "lit = ''youtu.be/'' \<or> (lit = ''v='' \<and> (\<forall>j t. \<not> token_at ''youtu.be/'' url j t))"
  shows "extract_video_id url = Some (take 11 run) \<and> extract_video_id url \<noteq> None"
proof -
  from len have l11: "length (take 11 run) = 11" by simp
  from cls have c11: "list_all id_char (take 11 run)"
    by (auto simp: list_all_iff dest: in_set_takeD)
  have "url = pre @ lit @ take 11 run @ (drop 11 run @ post)"
    by (simp add: url)
  with l11 c11 have "token_at lit url (length pre) (take 11 run)"
    using token_at_decomp [of "take 11 run" lit pre "drop 11 run @ post"] by simp
  with first have found: "re_search lit url = Some (take 11 run)"
    by (intro re_search_leftmost)
  from lit have "extract_video_id url = Some (take 11 run)"
  proof
    assume "lit = ''youtu.be/''"
    with found show ?thesis by (simp add: extract_video_id_def)
  next
    assume "lit = ''v='' \<and> (\<forall>j t. \<not> token_at ''youtu.be/'' url j t)"
    then have v: "lit = ''v=''" and "re_search ''youtu.be/'' url = None"
      using re_search_None_iff [of "''youtu.be/''" url] by blast+
    with found show ?thesis by (simp add: extract_video_id_def)
  qed
  then show ?thesis by simp
qed

theorem extract_no_right_boundary_witness:
  "''https://youtu.be/dQw4w9WgXcQ_extra'' = ''https://'' @ ''youtu.be/'' @ ''dQw4w9WgXcQ_extra'' @ [] \<and>
   12 \<le> length ''dQw4w9WgXcQ_extra'' \<and> list_all id_char ''dQw4w9WgXcQ_extra'' \<and>
   extract_video_id ''https://youtu.be/dQw4w9WgXcQ_extra'' = Some ''dQw4w9WgXcQ'' \<and>
   ''https://www.youtube.com/watch?v=dQw4w9WgXcQABCDEF&t=1'' =
      ''https://www.youtube.com/watch?'' @ ''v='' @ ''dQw4w9WgXcQABCDEF'' @ ''&t=1'' \<and>
   12 \<le> length ''dQw4w9WgXcQABCDEF'' \<and> list_all id_char ''dQw4w9WgXcQABCDEF'' \<and>
   re_search ''youtu.be/'' ''https://www.youtube.com/watch?v=dQw4w9WgXcQABCDEF&t=1'' = None \<and>
   extract_video_id ''https://www.youtube.com/watch?v=dQw4w9WgXcQABCDEF&t=1'' = Some ''dQw4w9WgXcQ''"
proof -
  let ?u = "''https://youtu.be/dQw4w9WgXcQ_extra''"
  let ?w = "''https://www.youtube.com/watch?v=dQw4w9WgXcQABCDEF&t=1''"
  have u: "?u = ''https://'' @ ''youtu.be/'' @ ''dQw4w9WgXcQ_extra'' @ []" by simp
  have ul: "12 \<le> length ''dQw4w9WgXcQ_extra''" by simp
  have uc: "list_all id_char ''dQw4w9WgXcQ_extra''" by code_simp
  have uf: "\<forall>j<length ''https://''. \<forall>t. \<not> token_at ''youtu.be/'' ?u j t"
    unfolding token_free_prefix_code by code_simp
  have a: "extract_video_id ?u = Some ''dQw4w9WgXcQ''"
    using extract_no_right_boundary [OF u ul uc uf] by simp
  have w: "?w = ''https://www.youtube.com/watch?'' @ ''v='' @ ''dQw4w9WgXcQABCDEF'' @ ''&t=1''"
    by simp
  have wl: "12 \<le> length ''dQw4w9WgXcQABCDEF''" by simp
  have wc: "list_all id_char ''dQw4w9WgXcQABCDEF''" by code_simp
  have wf: "\<forall>j<length ''https://www.youtube.com/watch?''. \<forall>t. \<not> token_at ''v='' ?w j t"
    unfolding token_free_prefix_code by code_simp
  have ws: "re_search ''youtu.be/'' ?w = None" by code_simp
  then have wn: "\<forall>j t. \<not> token_at ''youtu.be/'' ?w j t"
    by (rule re_search_None_iff [THEN iffD1])
  have b: "extract_video_id ?w = Some ''dQw4w9WgXcQ''"
    using extract_no_right_boundary [OF w wl wc wf] wn by simp
  from u ul uc a w wl wc ws b show ?thesis by (intro conjI)
qed

text \<open>
  The claim as stated, for any occurrence, fails: a run of 16 characters after the
  second \<^verbatim>\<open>youtu.be/\<close> is ignored when a token follows the first.
\<close>

theorem extract_no_right_boundary_counterexample:
  "''https://youtu.be/dQw4w9WgXcQ?list=youtu.be/PLAAAAAAAAAAAAAA'' =
      ''https://youtu.be/dQw4w9WgXcQ?list='' @ ''youtu.be/'' @ ''PLAAAAAAAAAAAAAA'' @ [] \<and>
   12 \<le> length ''PLAAAAAAAAAAAAAA'' \<and> list_all id_char ''PLAAAAAAAAAAAAAA'' \<and>
   extract_video_id ''https://youtu.be/dQw4w9WgXcQ?list=youtu.be/PLAAAAAAAAAAAAAA'' = Some ''dQw4w9WgXcQ'' \<and>
   extract_video_id ''https://youtu.be/dQw4w9WgXcQ?list=youtu.be/PLAAAAAAAAAAAAAA'' \<noteq>
      Some (take 11 ''PLAAAAAAAAAAAAAA'')"
  by code_simp

end
